theory Spec2Isabelle
  imports Main "HOL-Library.AList"
begin

section \<open>Python values used by the todo application\<close>

text \<open>
  A Python \<open>str\<close> is a sequence of Unicode code points and \<open>len\<close> counts code points,
  so a text is modelled as a list of code points. Messages of exceptions are ASCII
  literals and are kept as HOL strings. Python integers are unbounded: \<open>int\<close>.
  A \<open>datetime\<close> is only stored and never computed with; it is a clock reading.
\<close>

type_synonym pystr = "nat list"
type_synonym datetime = int
type_synonym ref = nat

text \<open>
  \<open>str.strip()\<close> without argument removes the characters for which \<open>str.isspace()\<close>
  holds from both ends. These are the code points U+0009..U+000D, U+001C..U+0020,
  U+0085, U+00A0, U+1680, U+2000..U+200A, U+2028, U+2029, U+202F, U+205F and U+3000.
\<close>

definition isspace :: "nat \<Rightarrow> bool" where
  "isspace c \<longleftrightarrow>
     (9 \<le> c \<and> c \<le> 13) \<or> (28 \<le> c \<and> c \<le> 32) \<or> c = 133 \<or> c = 160 \<or> c = 5760 \<or>
     (8192 \<le> c \<and> c \<le> 8202) \<or> c = 8232 \<or> c = 8233 \<or> c = 8239 \<or> c = 8287 \<or> c = 12288"

definition strip :: "pystr \<Rightarrow> pystr" where
  "strip s = rev (dropWhile isspace (rev (dropWhile isspace s)))"

text \<open>
  The decimal rendering of an integer, as the f-string of \<open>validate_task_id\<close> produces
  it when the conversion is allowed (see \<open>format_int\<close> below).
\<close>

fun digits :: "nat \<Rightarrow> string" where
  "digits n =
     (if n < 10 then [char_of (48 + n)]
      else digits (n div 10) @ [char_of (48 + n mod 10)])"

declare digits.simps [simp del]

definition str_int :: "int \<Rightarrow> string" where
  "str_int i = (if i < 0 then CHR ''-'' # digits (nat (- i)) else digits (nat i))"

section \<open>exceptions.py\<close>

text \<open>
  The two exception classes the service raises, each with its message. \<open>AttributeError\<close>
  is what Python raises when an attribute of \<open>None\<close> is read, and \<open>ValueError\<close> what
  CPython raises when an integer of more than 4300 decimal digits (the default of
  \<open>sys.get_int_max_str_digits()\<close>; the sign is not counted) is converted to a string.
\<close>

datatype error =
    ValidationError string
  | TaskNotFoundError string
  | AttributeError
  | ValueError

definition max_str_digits :: nat where
  "max_str_digits = 4300"

definition format_int :: "int \<Rightarrow> error + string" where
  "format_int i =
     (if max_str_digits < length (digits (nat \<bar>i\<bar>)) then Inl ValueError else Inr (str_int i))"

section \<open>models.py\<close>

datatype TaskStatus = INCOMPLETE | COMPLETE

text \<open>The field \<open>id\<close> of the class is named \<open>task_id\<close> here, as the constructor's argument is.\<close>

record Task =
  task_id :: int
  title :: pystr
  description :: pystr
  status :: TaskStatus
  created_at :: datetime

section \<open>repository.py: the store\<close>

text \<open>
  \<open>_tasks\<close> is a Python dict from ids to task objects. A dict keeps its keys in insertion
  order; assigning to a present key keeps its place, assigning to a new key appends. This
  is \<open>AList.update\<close> on an association list, and \<open>del\<close> is \<open>AList.delete\<close>.
  The values are references: the dict and every caller holding a task share one object.
\<close>

record TaskRepository =
  tasks :: "(int \<times> ref) list"
  next_id :: int

text \<open>
  The objects live in a heap: a task object is a cell of the list, its reference is the
  index of the cell. Objects are never freed. The service holds one repository. A reference
  handed out by a constructor is always below the length of the heap.
\<close>

record world =
  heap :: "Task list"
  repo :: TaskRepository

definition new_Task :: "world \<Rightarrow> Task \<Rightarrow> ref \<times> world" where
  "new_Task w t = (length (heap w), w\<lparr>heap := heap w @ [t]\<rparr>)"

text \<open>\<open>Task.__init__\<close>; \<open>now\<close> is what \<open>datetime.now()\<close> reads. A datetime is never falsy.\<close>

definition Task_init ::
  "world \<Rightarrow> int \<Rightarrow> pystr \<Rightarrow> pystr \<Rightarrow> TaskStatus \<Rightarrow> datetime option \<Rightarrow> datetime \<Rightarrow> ref \<times> world" where
  "Task_init w tid t d st created now =
     new_Task w \<lparr>task_id = tid, title = t, description = d, status = st,
                 created_at = (case created of Some c \<Rightarrow> c | None \<Rightarrow> now)\<rparr>"

definition Task_update_title :: "world \<Rightarrow> ref \<Rightarrow> pystr \<Rightarrow> world" where
  "Task_update_title w a new_title = w\<lparr>heap := (heap w)[a := (heap w ! a)\<lparr>title := new_title\<rparr>]\<rparr>"

definition Task_update_description :: "world \<Rightarrow> ref \<Rightarrow> pystr \<Rightarrow> world" where
  "Task_update_description w a new_description =
     w\<lparr>heap := (heap w)[a := (heap w ! a)\<lparr>description := new_description\<rparr>]\<rparr>"

definition Task_mark_complete :: "world \<Rightarrow> ref \<Rightarrow> world" where
  "Task_mark_complete w a = w\<lparr>heap := (heap w)[a := (heap w ! a)\<lparr>status := COMPLETE\<rparr>]\<rparr>"

definition Task_mark_incomplete :: "world \<Rightarrow> ref \<Rightarrow> world" where
  "Task_mark_incomplete w a = w\<lparr>heap := (heap w)[a := (heap w ! a)\<lparr>status := INCOMPLETE\<rparr>]\<rparr>"

definition Task_is_complete :: "world \<Rightarrow> ref \<Rightarrow> bool" where
  "Task_is_complete w a \<longleftrightarrow> status (heap w ! a) = COMPLETE"

definition TaskRepository_init :: TaskRepository where
  "TaskRepository_init = \<lparr>tasks = [], next_id = 1\<rparr>"

definition TaskRepository_add_task :: "world \<Rightarrow> ref \<Rightarrow> ref \<times> world" where
  "TaskRepository_add_task w task =
     (task, w\<lparr>repo :=
        \<lparr>tasks = AList.update (task_id (heap w ! task)) task (tasks (repo w)),
         next_id = max (next_id (repo w)) (task_id (heap w ! task) + 1)\<rparr>\<rparr>)"

definition TaskRepository_get_task :: "world \<Rightarrow> int \<Rightarrow> ref option" where
  "TaskRepository_get_task w i = map_of (tasks (repo w)) i"

definition TaskRepository_get_all_tasks :: "world \<Rightarrow> ref list" where
  "TaskRepository_get_all_tasks w =
     sort_key (\<lambda>t. task_id (heap w ! t)) (map snd (tasks (repo w)))"

definition TaskRepository_delete_task :: "world \<Rightarrow> int \<Rightarrow> bool \<times> world" where
  "TaskRepository_delete_task w i =
     (if i \<in> set (map fst (tasks (repo w)))
      then (True, w\<lparr>repo := (repo w)\<lparr>tasks := AList.delete i (tasks (repo w))\<rparr>\<rparr>)
      else (False, w))"

definition TaskRepository_task_exists :: "world \<Rightarrow> int \<Rightarrow> bool" where
  "TaskRepository_task_exists w i \<longleftrightarrow> i \<in> set (map fst (tasks (repo w)))"

definition TaskRepository_get_next_id :: "world \<Rightarrow> int" where
  "TaskRepository_get_next_id w = next_id (repo w)"

definition TaskRepository_clear :: "world \<Rightarrow> world" where
  "TaskRepository_clear w = w\<lparr>repo := \<lparr>tasks = [], next_id = 1\<rparr>\<rparr>"

section \<open>service.py: validation and the operations of the service\<close>

text \<open>
  A call either returns a value or raises; what it has written to the objects before it
  raises stays written. So every operation that writes returns the outcome together with
  the world it leaves behind.
\<close>

definition TaskService_validate_title :: "pystr \<Rightarrow> error + pystr" where
  "TaskService_validate_title t =
     (if t = [] \<or> strip t = [] then Inl (ValidationError ''Task title cannot be empty'')
      else let trimmed = strip t in
        if length trimmed > 200 then Inl (ValidationError ''Task title exceeds 200 characters'')
        else Inr trimmed)"

definition TaskService_validate_description :: "pystr \<Rightarrow> error + pystr" where
  "TaskService_validate_description d =
     (if d = [] then Inr []
      else let trimmed = strip d in
        if length trimmed > 500 then Inl (ValidationError ''Description exceeds 500 characters'')
        else Inr trimmed)"

definition TaskService_validate_task_id :: "world \<Rightarrow> int \<Rightarrow> error + unit" where
  "TaskService_validate_task_id w i =
     (if \<not> TaskRepository_task_exists w i
      then (case format_int i of
              Inl e \<Rightarrow> Inl e
            | Inr s \<Rightarrow> Inl (TaskNotFoundError (''Task ID '' @ s @ '' not found'')))
      else Inr ())"

definition TaskService_add_task ::
  "world \<Rightarrow> pystr \<Rightarrow> pystr \<Rightarrow> datetime \<Rightarrow> (error + ref) \<times> world" where
  "TaskService_add_task w t d now =
     (case TaskService_validate_title t of
        Inl e \<Rightarrow> (Inl e, w)
      | Inr validated_title \<Rightarrow>
        (case TaskService_validate_description d of
           Inl e \<Rightarrow> (Inl e, w)
         | Inr validated_description \<Rightarrow>
           (case Task_init w (TaskRepository_get_next_id w) validated_title
                   validated_description INCOMPLETE None now of
              (task, w1) \<Rightarrow>
                (case TaskRepository_add_task w1 task of (r, w2) \<Rightarrow> (Inr r, w2)))))"

definition TaskService_get_all_tasks :: "world \<Rightarrow> ref list" where
  "TaskService_get_all_tasks w = TaskRepository_get_all_tasks w"

text \<open>
  \<open>get_task\<close> and \<open>delete_task\<close> hand on what the repository's \<open>get_task\<close> returned,
  an optional reference.
\<close>

definition TaskService_get_task :: "world \<Rightarrow> int \<Rightarrow> error + ref option" where
  "TaskService_get_task w i =
     (case TaskService_validate_task_id w i of
        Inl e \<Rightarrow> Inl e
      | Inr _ \<Rightarrow> Inr (TaskRepository_get_task w i))"

text \<open>
  In \<open>update_task\<close>, \<open>mark_complete\<close> and \<open>mark_incomplete\<close> the task fetched after the
  existence check is used through its attributes. Were it \<open>None\<close>, Python would raise
  \<open>AttributeError\<close> there; the model has that branch, and
  \<open>validate_task_id_get_task\<close> below shows that it is never taken.
\<close>

definition TaskService_update_task ::
  "world \<Rightarrow> int \<Rightarrow> pystr option \<Rightarrow> pystr option \<Rightarrow> (error + ref \<times> bool) \<times> world" where
  "TaskService_update_task w i new_title new_description =
     (case TaskService_validate_task_id w i of
        Inl e \<Rightarrow> (Inl e, w)
      | Inr _ \<Rightarrow>
        (case TaskRepository_get_task w i of
           None \<Rightarrow> (Inl AttributeError, w)
         | Some task \<Rightarrow>
           (case
              (case new_title of
                 None \<Rightarrow> (Inr False, w)
               | Some nt \<Rightarrow>
                 (case TaskService_validate_title nt of
                    Inl e \<Rightarrow> (Inl e, w)
                  | Inr validated_title \<Rightarrow>
                      if validated_title \<noteq> title (heap w ! task)
                      then (Inr True, Task_update_title w task validated_title)
                      else (Inr False, w)))
            of
              (Inl e, w1) \<Rightarrow> (Inl e, w1)
            | (Inr was_changed, w1) \<Rightarrow>
              (case new_description of
                 None \<Rightarrow> (Inr (task, was_changed), w1)
               | Some nd \<Rightarrow>
                 (case TaskService_validate_description nd of
                    Inl e \<Rightarrow> (Inl e, w1)
                  | Inr validated_description \<Rightarrow>
                      if validated_description \<noteq> description (heap w1 ! task)
                      then (Inr (task, True),
                            Task_update_description w1 task validated_description)
                      else (Inr (task, was_changed), w1))))))"

definition TaskService_delete_task :: "world \<Rightarrow> int \<Rightarrow> (error + ref option) \<times> world" where
  "TaskService_delete_task w i =
     (case TaskService_validate_task_id w i of
        Inl e \<Rightarrow> (Inl e, w)
      | Inr _ \<Rightarrow>
        (let task = TaskRepository_get_task w i
         in (Inr task, snd (TaskRepository_delete_task w i))))"

definition TaskService_mark_complete :: "world \<Rightarrow> int \<Rightarrow> (error + ref) \<times> world" where
  "TaskService_mark_complete w i =
     (case TaskService_validate_task_id w i of
        Inl e \<Rightarrow> (Inl e, w)
      | Inr _ \<Rightarrow>
        (case TaskRepository_get_task w i of
           None \<Rightarrow> (Inl AttributeError, w)
         | Some task \<Rightarrow>
             if Task_is_complete w task
             then (Inl (ValidationError ''Task is already complete''), w)
             else (Inr task, Task_mark_complete w task)))"

definition TaskService_mark_incomplete :: "world \<Rightarrow> int \<Rightarrow> (error + ref) \<times> world" where
  "TaskService_mark_incomplete w i =
     (case TaskService_validate_task_id w i of
        Inl e \<Rightarrow> (Inl e, w)
      | Inr _ \<Rightarrow>
        (case TaskRepository_get_task w i of
           None \<Rightarrow> (Inl AttributeError, w)
         | Some task \<Rightarrow>
             if \<not> Task_is_complete w task
             then (Inl (ValidationError ''Task is already incomplete''), w)
             else (Inr task, Task_mark_incomplete w task)))"

definition TaskService_get_statistics :: "world \<Rightarrow> int \<times> int \<times> int" where
  "TaskService_get_statistics w =
     (let tasks = TaskService_get_all_tasks w;
          total = int (length tasks);
          completed = sum_list (map (\<lambda>t. 1) (filter (Task_is_complete w) tasks));
          remaining = total - completed
      in (total, completed, remaining))"

section \<open>Runs of the application\<close>

text \<open>
  A fresh process: no object, an empty repository. A caller performs operations one after
  the other and survives the exceptions (the menu loop catches them), so a run is a fold
  of the operations over the world. Besides the operations of the service, a caller may
  construct a task with any fields and hand it to the repository, delete from the
  repository, or reset it.
\<close>

definition fresh :: world where
  "fresh = \<lparr>heap = [], repo = TaskRepository_init\<rparr>"

datatype op =
    Add pystr pystr datetime
  | Get int
  | ListAll
  | Update int "pystr option" "pystr option"
  | Delete int
  | MarkComplete int
  | MarkIncomplete int
  | Statistics
  | RepoAdd Task
  | RepoDelete int
  | RepoClear

fun step :: "world \<Rightarrow> op \<Rightarrow> world" where
  "step w (Add t d now) = snd (TaskService_add_task w t d now)"
| "step w (Get i) = w"
| "step w ListAll = w"
| "step w (Update i nt nd) = snd (TaskService_update_task w i nt nd)"
| "step w (Delete i) = snd (TaskService_delete_task w i)"
| "step w (MarkComplete i) = snd (TaskService_mark_complete w i)"
| "step w (MarkIncomplete i) = snd (TaskService_mark_incomplete w i)"
| "step w Statistics = w"
| "step w (RepoAdd t) = (case new_Task w t of (a, w1) \<Rightarrow> snd (TaskRepository_add_task w1 a))"
| "step w (RepoDelete i) = snd (TaskRepository_delete_task w i)"
| "step w RepoClear = TaskRepository_clear w"

definition run :: "world \<Rightarrow> op list \<Rightarrow> world" where
  "run w ops = foldl step w ops"

text \<open>
  A script of \<open>add\<close> calls that notes, for each call, the error raised or the id of the
  task returned.
\<close>

fun add_all :: "world \<Rightarrow> (pystr \<times> pystr \<times> datetime) list \<Rightarrow> (error + int) list" where
  "add_all w [] = []"
| "add_all w ((t, d, now) # calls) =
     (case TaskService_add_task w t d now of
        (Inl e, w1) \<Rightarrow> Inl e # add_all w1 calls
      | (Inr task, w1) \<Rightarrow> Inr (task_id (heap w1 ! task)) # add_all w1 calls)"

section \<open>Invariants of the heap and the store\<close>

text \<open>
  \<open>same_ids h h'\<close>: the heap \<open>h'\<close> still has every object of \<open>h\<close>, with the id and
  the creation time it had. \<open>consistent\<close>: the keys of the dict are distinct, every entry
  refers to an allocated object whose id is the key, and every key is below the counter.
\<close>

definition same_ids :: "Task list \<Rightarrow> Task list \<Rightarrow> bool" where
  "same_ids h h' \<longleftrightarrow>
     length h \<le> length h' \<and>
     (\<forall>a<length h. task_id (h' ! a) = task_id (h ! a) \<and> created_at (h' ! a) = created_at (h ! a))"

definition consistent :: "world \<Rightarrow> bool" where
  "consistent w \<longleftrightarrow>
     distinct (map fst (tasks (repo w))) \<and>
     (\<forall>(k, a)\<in>set (tasks (repo w)).
        a < length (heap w) \<and> task_id (heap w ! a) = k \<and> k < next_id (repo w))"

section \<open>Example worlds\<close>

text \<open>
  \<open>one_task\<close> is the world after \<open>add("T")\<close> on the fresh store at clock reading 0
  (84 is the code point of T). \<open>scenario\<close> is add, add, delete(1), add, and
  \<open>after_scenario\<close> the world it leaves (\<open>run_scenario\<close>).
\<close>

definition one_task :: world where
  "one_task =
     \<lparr>heap = [\<lparr>task_id = 1, title = [84], description = [], status = INCOMPLETE, created_at = 0\<rparr>],
      repo = \<lparr>tasks = [(1, 0)], next_id = 2\<rparr>\<rparr>"

definition scenario :: "op list" where
  "scenario = [Add [84] [] 0, Add [66] [67] 1, Delete 1, Add [70] [] 2]"

definition after_scenario :: world where
  "after_scenario =
     \<lparr>heap = [\<lparr>task_id = 1, title = [84], description = [], status = INCOMPLETE, created_at = 0\<rparr>,
              \<lparr>task_id = 2, title = [66], description = [67], status = INCOMPLETE, created_at = 1\<rparr>,
              \<lparr>task_id = 3, title = [70], description = [], status = INCOMPLETE, created_at = 2\<rparr>],
      repo = \<lparr>tasks = [(2, 1), (3, 2)], next_id = 4\<rparr>\<rparr>"

section \<open>Trimming, validation and the existence check\<close>

lemma strip_Nil_iff: "strip s = [] \<longleftrightarrow> (\<forall>c\<in>set s. isspace c)"
proof
  assume "strip s = []"
  then have all: "\<forall>c\<in>set (dropWhile isspace s). isspace c"
    by (simp add: strip_def dropWhile_eq_Nil_conv)
  show "\<forall>c\<in>set s. isspace c"
  proof (cases "dropWhile isspace s")
    case Nil
    then show ?thesis by (simp add: dropWhile_eq_Nil_conv)
  next
    case (Cons x xs)
    then have "\<not> isspace (hd (dropWhile isspace s))"
      using hd_dropWhile [of isspace s] by simp
    moreover have "hd (dropWhile isspace s) \<in> set (dropWhile isspace s)"
      using Cons by simp
    ultimately show ?thesis using all by blast
  qed
next
  assume "\<forall>c\<in>set s. isspace c"
  then show "strip s = []"
    by (auto simp: strip_def dest: set_dropWhileD)
qed

lemma strip_no_outer_space:
  assumes ne: "strip s \<noteq> []"
  shows "\<not> isspace (hd (strip s)) \<and> \<not> isspace (last (strip s))"
proof -
  let ?u = "dropWhile isspace s"
  let ?v = "dropWhile isspace (rev ?u)"
  have v: "?v \<noteq> []" using ne by (simp add: strip_def)
  then have u: "?u \<noteq> []" by (cases "?u") auto
  have "\<not> isspace (hd ?v)" using v hd_dropWhile by blast
  then have l: "\<not> isspace (last (strip s))"
    using v by (simp add: strip_def last_rev)
  have hu: "\<not> isspace (hd ?u)" using u hd_dropWhile by blast
  have "rev ?u = takeWhile isspace (rev ?u) @ ?v" by simp
  then have "last (rev ?u) = last ?v" using v by (metis last_appendR)
  then have "last ?v = hd ?u" using u by (simp add: last_rev)
  then have "hd (strip s) = hd ?u" using v by (simp add: strip_def hd_rev)
  then show ?thesis using hu l by simp
qed

lemma strip_padded:
  assumes "xs \<noteq> []" "\<not> isspace (hd xs)" "\<not> isspace (last xs)"
    and l: "\<forall>c\<in>set l. isspace c" and r: "\<forall>c\<in>set r. isspace c"
  shows "strip (l @ xs @ r) = xs"
proof -
  have nohd: "\<And>ys zs. ys \<noteq> [] \<Longrightarrow> \<not> isspace (hd ys) \<Longrightarrow> dropWhile isspace (ys @ zs) = ys @ zs"
    by (case_tac ys) auto
  have "dropWhile isspace (l @ xs @ r) = dropWhile isspace (xs @ r)"
    using l by (simp add: dropWhile_append2)
  also have "\<dots> = xs @ r" using assms(1,2) by (rule nohd)
  finally have 1: "dropWhile isspace (l @ xs @ r) = xs @ r" .
  have "dropWhile isspace (rev r @ rev xs) = dropWhile isspace (rev xs)"
    by (rule dropWhile_append2) (use r in simp)
  also have "\<dots> = rev xs"
    using nohd [of "rev xs" "[]"] assms(1,3) by (simp add: hd_rev)
  finally show ?thesis by (simp add: strip_def 1)
qed

lemma strip_plain:
  assumes "s \<noteq> []" "\<not> isspace (hd s)" "\<not> isspace (last s)"
  shows "strip s = s"
  using strip_padded [of s "[]" "[]"] assms by simp

lemma validate_title_plain:
  assumes "s \<noteq> []" "\<not> isspace (hd s)" "\<not> isspace (last s)" "length s \<le> 200"
  shows "TaskService_validate_title s = Inr s"
  using assms by (simp add: TaskService_validate_title_def strip_plain)

lemma validate_description_plain:
  assumes "s \<noteq> []" "\<not> isspace (hd s)" "\<not> isspace (last s)" "length s \<le> 500"
  shows "TaskService_validate_description s = Inr s"
  using assms by (simp add: TaskService_validate_description_def strip_plain)

lemma validate_description_too_long:
  assumes "s \<noteq> []" "\<not> isspace (hd s)" "\<not> isspace (last s)" "500 < length s"
  shows "TaskService_validate_description s = Inl (ValidationError ''Description exceeds 500 characters'')"
  using assms by (simp add: TaskService_validate_description_def strip_plain)

lemma validate_description_empty: "TaskService_validate_description [] = Inr []"
  by (simp add: TaskService_validate_description_def)

lemma validate_title_error_kind:
  "TaskService_validate_title t = Inl e \<Longrightarrow> \<exists>m. e = ValidationError m"
  by (auto simp: TaskService_validate_title_def Let_def split: if_splits)

lemma validate_description_error_kind:
  "TaskService_validate_description d = Inl e \<Longrightarrow> \<exists>m. e = ValidationError m"
  by (auto simp: TaskService_validate_description_def Let_def split: if_splits)

lemma letters_valid:
  "TaskService_validate_title [84] = Inr [84]"
  "TaskService_validate_title [66] = Inr [66]"
  "TaskService_validate_title [70] = Inr [70]"
  "TaskService_validate_title [78] = Inr [78]"
  "TaskService_validate_description [67] = Inr [67]"
  by (simp_all add: validate_title_plain validate_description_plain isspace_def)

lemma long_description_rejected:
  "TaskService_validate_description (replicate 501 121) =
     Inl (ValidationError ''Description exceeds 500 characters'')"
proof -
  have x: "\<not> isspace 121" by (simp add: isspace_def)
  have h: "hd (replicate 501 121) = (121::nat)" by (rule hd_replicate) simp
  have l: "last (replicate 501 121) = (121::nat)" by (rule last_replicate) simp
  have ne: "replicate 501 (121::nat) \<noteq> []" by (simp only: replicate_empty)
  have len: "500 < length (replicate 501 (121::nat))" by (simp only: length_replicate)
  show ?thesis
    by (rule validate_description_too_long) (simp_all only: h l x ne len not_False_eq_True)
qed

lemma validate_task_id_get_task:
  "TaskService_validate_task_id w i = Inr u \<Longrightarrow> \<exists>a. TaskRepository_get_task w i = Some a"
  by (auto simp: TaskService_validate_task_id_def TaskRepository_task_exists_def
      TaskRepository_get_task_def weak_map_of_SomeI split: if_splits sum.splits)

lemma validate_task_id_stored:
  "TaskRepository_get_task w i = Some a \<Longrightarrow> TaskService_validate_task_id w i = Inr ()"
  by (auto simp: TaskService_validate_task_id_def TaskRepository_task_exists_def
      TaskRepository_get_task_def dest: map_of_SomeD intro: rev_image_eqI)

section \<open>Effects of the operations and preservation of the invariants\<close>

text \<open>
  Every world reached from the fresh one is \<open>consistent\<close> (\<open>reachable_consistent\<close>), and
  every operation keeps the objects of the heap and their ids (\<open>run_heap\<close>).
\<close>

lemma same_ids_refl: "same_ids h h"
  by (simp add: same_ids_def)

lemma same_ids_trans: "same_ids h1 h2 \<Longrightarrow> same_ids h2 h3 \<Longrightarrow> same_ids h1 h3"
  by (auto simp: same_ids_def)

lemma same_ids_append: "same_ids h (h @ ts)"
  by (simp add: same_ids_def nth_append)

lemma nth_update_frame:
  assumes "\<And>t. f (g t) = f t"
  shows "f (h[a := g (h ! a)] ! b) = f (h ! b)"
proof (cases "a < length h")
  case True
  then show ?thesis using assms by (cases "a = b") simp_all
next
  case False
  then have "h[a := g (h ! a)] = h" by (simp add: list_update_beyond)
  then show ?thesis by simp
qed

lemma same_ids_title: "same_ids h (h[a := (h ! a)\<lparr>title := x\<rparr>])"
  unfolding same_ids_def
  using nth_update_frame [of task_id "\<lambda>t. t\<lparr>title := x\<rparr>" h a]
    nth_update_frame [of created_at "\<lambda>t. t\<lparr>title := x\<rparr>" h a]
  by simp

lemma same_ids_description: "same_ids h (h[a := (h ! a)\<lparr>description := x\<rparr>])"
  unfolding same_ids_def
  using nth_update_frame [of task_id "\<lambda>t. t\<lparr>description := x\<rparr>" h a]
    nth_update_frame [of created_at "\<lambda>t. t\<lparr>description := x\<rparr>" h a]
  by simp

lemma same_ids_status: "same_ids h (h[a := (h ! a)\<lparr>status := x\<rparr>])"
  unfolding same_ids_def
  using nth_update_frame [of task_id "\<lambda>t. t\<lparr>status := x\<rparr>" h a]
    nth_update_frame [of created_at "\<lambda>t. t\<lparr>status := x\<rparr>" h a]
  by simp

lemma add_task_valid:
  assumes "TaskService_validate_title t = Inr vt" "TaskService_validate_description d = Inr vd"
  shows "TaskService_add_task w t d now =
     (Inr (length (heap w)),
      \<lparr>heap = heap w @ [\<lparr>task_id = next_id (repo w), title = vt, description = vd,
                          status = INCOMPLETE, created_at = now\<rparr>],
       repo = \<lparr>tasks = AList.update (next_id (repo w)) (length (heap w)) (tasks (repo w)),
               next_id = next_id (repo w) + 1\<rparr>\<rparr>)"
  using assms
  by (simp add: TaskService_add_task_def Task_init_def new_Task_def TaskRepository_add_task_def
      TaskRepository_get_next_id_def)

lemma add_task_invalid:
  assumes "fst (TaskService_add_task w t d now) = Inl e"
  shows "TaskService_add_task w t d now = (Inl e, w) \<and>
         (TaskService_validate_title t = Inl e \<or> TaskService_validate_description d = Inl e)"
  using assms
  by (auto simp: TaskService_add_task_def Task_init_def new_Task_def TaskRepository_add_task_def
      split: sum.splits)

lemma add_task_cases:
  obtains (invalid) e where "TaskService_add_task w t d now = (Inl e, w)"
  | (valid) vt vd where "TaskService_validate_title t = Inr vt"
      "TaskService_validate_description d = Inr vd"
proof (cases "TaskService_validate_title t")
  case (Inl e)
  then have "TaskService_add_task w t d now = (Inl e, w)"
    by (simp add: TaskService_add_task_def)
  then show ?thesis by (rule invalid)
next
  case (Inr vt)
  show ?thesis
  proof (cases "TaskService_validate_description d")
    case (Inl e)
    then have "TaskService_add_task w t d now = (Inl e, w)"
      using Inr by (simp add: TaskService_add_task_def)
    then show ?thesis by (rule invalid)
  next
    case Inr2: (Inr vd)
    show ?thesis using Inr Inr2 by (rule valid)
  qed
qed

lemma step_RepoAdd:
  "step w (RepoAdd t) =
     \<lparr>heap = heap w @ [t],
      repo = \<lparr>tasks = AList.update (task_id t) (length (heap w)) (tasks (repo w)),
              next_id = max (next_id (repo w)) (task_id t + 1)\<rparr>\<rparr>"
  by (simp add: new_Task_def TaskRepository_add_task_def)

lemma Task_update_title_heap: "same_ids (heap w) (heap (Task_update_title w a x))"
  by (simp add: Task_update_title_def same_ids_title)

lemma Task_update_description_heap: "same_ids (heap w) (heap (Task_update_description w a x))"
  by (simp add: Task_update_description_def same_ids_description)

lemma Task_update_title_effect:
  "repo (Task_update_title w a x) = repo w"
  "description (heap (Task_update_title w a x) ! b) = description (heap w ! b)"
  "status (heap (Task_update_title w a x) ! b) = status (heap w ! b)"
  "a < length (heap w) \<Longrightarrow> title (heap (Task_update_title w a x) ! a) = x"
  "b \<noteq> a \<Longrightarrow> heap (Task_update_title w a x) ! b = heap w ! b"
  using nth_update_frame [of description "\<lambda>t. t\<lparr>title := x\<rparr>" "heap w" a b]
    nth_update_frame [of status "\<lambda>t. t\<lparr>title := x\<rparr>" "heap w" a b]
  by (simp_all add: Task_update_title_def)

lemma Task_mark_complete_effect:
  "repo (Task_mark_complete w a) = repo w"
  "TaskRepository_get_task (Task_mark_complete w a) i = TaskRepository_get_task w i"
  "a < length (heap w) \<Longrightarrow> status (heap (Task_mark_complete w a) ! a) = COMPLETE"
  by (simp_all add: Task_mark_complete_def TaskRepository_get_task_def)

lemma Task_mark_incomplete_effect:
  "repo (Task_mark_incomplete w a) = repo w"
  "TaskRepository_get_task (Task_mark_incomplete w a) i = TaskRepository_get_task w i"
  "a < length (heap w) \<Longrightarrow> status (heap (Task_mark_incomplete w a) ! a) = INCOMPLETE"
  by (simp_all add: Task_mark_incomplete_def TaskRepository_get_task_def)

lemma update_task_repo: "repo (snd (TaskService_update_task w i nt nd)) = repo w"
  by (simp add: TaskService_update_task_def Task_update_title_def Task_update_description_def
      split: sum.splits option.splits prod.splits if_splits)

lemma update_task_heap: "same_ids (heap w) (heap (snd (TaskService_update_task w i nt nd)))"
  by (auto simp: TaskService_update_task_def same_ids_refl
      Task_update_title_heap Task_update_description_heap
      intro: same_ids_trans [OF Task_update_title_heap Task_update_description_heap]
      split: sum.splits option.splits prod.splits if_splits)

lemma mark_complete_repo: "repo (snd (TaskService_mark_complete w i)) = repo w"
  by (simp add: TaskService_mark_complete_def Task_mark_complete_def
      split: sum.splits option.splits)

lemma mark_complete_heap: "same_ids (heap w) (heap (snd (TaskService_mark_complete w i)))"
  by (simp add: TaskService_mark_complete_def Task_mark_complete_def same_ids_refl same_ids_status
      split: sum.splits option.splits)

lemma mark_incomplete_repo: "repo (snd (TaskService_mark_incomplete w i)) = repo w"
  by (simp add: TaskService_mark_incomplete_def Task_mark_incomplete_def
      split: sum.splits option.splits)

lemma mark_incomplete_heap: "same_ids (heap w) (heap (snd (TaskService_mark_incomplete w i)))"
  by (simp add: TaskService_mark_incomplete_def Task_mark_incomplete_def same_ids_refl same_ids_status
      split: sum.splits option.splits)

lemma delete_task_world:
  "snd (TaskService_delete_task w i) = w \<or>
   snd (TaskService_delete_task w i) = w\<lparr>repo := (repo w)\<lparr>tasks := AList.delete i (tasks (repo w))\<rparr>\<rparr>"
  by (simp add: TaskService_delete_task_def TaskRepository_delete_task_def Let_def
      split: sum.splits)

lemma repo_delete_task_world:
  "snd (TaskRepository_delete_task w i) = w \<or>
   snd (TaskRepository_delete_task w i) = w\<lparr>repo := (repo w)\<lparr>tasks := AList.delete i (tasks (repo w))\<rparr>\<rparr>"
  by (simp add: TaskRepository_delete_task_def)

lemma set_update_subset: "set (AList.update k v al) \<subseteq> insert (k, v) (set al)"
  by (induction al) auto

lemma set_delete_subset: "set (AList.delete k al) \<subseteq> set al"
  by (auto simp: AList.delete_eq)

lemma consistent_insert:
  assumes c: "consistent w"
  shows "consistent
     \<lparr>heap = heap w @ [t],
      repo = \<lparr>tasks = AList.update (task_id t) (length (heap w)) (tasks (repo w)),
              next_id = max (next_id (repo w)) (task_id t + 1)\<rparr>\<rparr>"
proof -
  let ?al = "tasks (repo w)"
  have d: "distinct (map fst (AList.update (task_id t) (length (heap w)) ?al))"
    using c by (simp add: consistent_def distinct_update)
  have e: "a < length (heap w @ [t]) \<and> task_id ((heap w @ [t]) ! a) = k \<and>
           k < max (next_id (repo w)) (task_id t + 1)"
    if "(k, a) \<in> set (AList.update (task_id t) (length (heap w)) ?al)" for k a
  proof -
    from that set_update_subset
    have "(k, a) = (task_id t, length (heap w)) \<or> (k, a) \<in> set ?al" by fastforce
    then show ?thesis
    proof
      assume "(k, a) = (task_id t, length (heap w))"
      then show ?thesis by simp
    next
      assume "(k, a) \<in> set ?al"
      then have "a < length (heap w) \<and> task_id (heap w ! a) = k \<and> k < next_id (repo w)"
        using c by (auto simp: consistent_def)
      then show ?thesis by (auto simp: nth_append)
    qed
  qed
  show ?thesis
    unfolding consistent_def using d e by auto
qed

lemma consistent_delete:
  assumes c: "consistent w"
  shows "consistent (w\<lparr>repo := (repo w)\<lparr>tasks := AList.delete i (tasks (repo w))\<rparr>\<rparr>)"
  using c set_delete_subset [of i "tasks (repo w)"]
  by (auto simp: consistent_def distinct_delete)

lemma consistent_heap_change:
  assumes c: "consistent w" and r: "repo w' = repo w" and h: "same_ids (heap w) (heap w')"
  shows "consistent w'"
  using c h unfolding consistent_def same_ids_def r by fastforce

lemma consistent_fresh: "consistent fresh"
  by (simp add: consistent_def fresh_def TaskRepository_init_def)

lemma consistent_step: "consistent w \<Longrightarrow> consistent (step w op)"
proof (cases op)
  case (Add t d now)
  assume c: "consistent w"
  show ?thesis
  proof (cases rule: add_task_cases [of w t d now])
    case (invalid e)
    then show ?thesis using c Add by simp
  next
    case (valid vt vd)
    have "max (next_id (repo w)) (next_id (repo w) + 1) = next_id (repo w) + 1" by simp
    then show ?thesis
      using consistent_insert [OF c, of "\<lparr>task_id = next_id (repo w), title = vt, description = vd,
          status = INCOMPLETE, created_at = now\<rparr>"] Add add_task_valid [OF valid, of w now]
      by simp
  qed
next
  case (Update i nt nd)
  assume "consistent w"
  then show ?thesis
    using Update consistent_heap_change [OF _ update_task_repo update_task_heap] by simp
next
  case (Delete i)
  assume "consistent w"
  then show ?thesis
    using Delete delete_task_world [of w i] consistent_delete [of w i] by auto
next
  case (MarkComplete i)
  assume "consistent w"
  then show ?thesis
    using MarkComplete consistent_heap_change [OF _ mark_complete_repo mark_complete_heap] by simp
next
  case (MarkIncomplete i)
  assume "consistent w"
  then show ?thesis
    using MarkIncomplete consistent_heap_change [OF _ mark_incomplete_repo mark_incomplete_heap]
    by simp
next
  case (RepoAdd t)
  assume "consistent w"
  then show ?thesis
    using RepoAdd consistent_insert [of w t] by (simp only: step_RepoAdd)
next
  case (RepoDelete i)
  assume "consistent w"
  then show ?thesis
    using RepoDelete repo_delete_task_world [of w i] consistent_delete [of w i] by auto
next
  case RepoClear
  then show ?thesis by (simp add: consistent_def TaskRepository_clear_def)
qed simp_all

lemma step_heap: "same_ids (heap w) (heap (step w op))"
proof (cases op)
  case (Add t d now)
  show ?thesis
  proof (cases rule: add_task_cases [of w t d now])
    case (invalid e)
    then show ?thesis using Add by (simp add: same_ids_refl)
  next
    case (valid vt vd)
    then show ?thesis using Add add_task_valid [OF valid, of w now] by (simp add: same_ids_append)
  qed
next
  case (Delete i)
  then show ?thesis using delete_task_world [of w i] by (auto simp: same_ids_refl)
next
  case (RepoDelete i)
  then show ?thesis using repo_delete_task_world [of w i] by (auto simp: same_ids_refl)
next
  case (RepoAdd t)
  then show ?thesis by (simp only: step_RepoAdd) (simp add: same_ids_append)
qed (simp_all add: same_ids_refl update_task_heap mark_complete_heap mark_incomplete_heap
    TaskRepository_clear_def)

lemma step_next_id_mono: "op \<noteq> RepoClear \<Longrightarrow> next_id (repo w) \<le> next_id (repo (step w op))"
proof (cases op)
  case (Add t d now)
  show ?thesis
  proof (cases rule: add_task_cases [of w t d now])
    case (invalid e)
    then show ?thesis using Add by simp
  next
    case (valid vt vd)
    then show ?thesis using Add add_task_valid [OF valid, of w now] by simp
  qed
next
  case (Delete i)
  then show ?thesis using delete_task_world [of w i] by auto
next
  case (RepoDelete i)
  then show ?thesis using repo_delete_task_world [of w i] by auto
next
  case (RepoAdd t)
  then show ?thesis by (simp only: step_RepoAdd) simp
qed (simp_all add: update_task_repo mark_complete_repo mark_incomplete_repo)

lemma run_Nil: "run w [] = w"
  by (simp add: run_def)

lemma run_Cons: "run w (op # ops) = run (step w op) ops"
  by (simp add: run_def)

lemma run_snoc: "run w (ops @ [op]) = step (run w ops) op"
  by (simp add: run_def)

lemma run_append: "run w (ops @ ops') = run (run w ops) ops'"
  by (simp add: run_def)

lemma consistent_run: "consistent w \<Longrightarrow> consistent (run w ops)"
  by (induction ops arbitrary: w) (simp_all add: run_Nil run_Cons consistent_step)

lemma reachable_consistent: "consistent (run fresh ops)"
  using consistent_fresh by (rule consistent_run)

lemma run_heap: "same_ids (heap w) (heap (run w ops))"
proof (induction ops arbitrary: w)
  case Nil
  show ?case by (simp add: run_Nil same_ids_refl)
next
  case (Cons op ops)
  show ?case
    using same_ids_trans [OF step_heap Cons.IH] by (simp add: run_Cons)
qed

lemma run_next_id_mono:
  "RepoClear \<notin> set ops \<Longrightarrow> next_id (repo w) \<le> next_id (repo (run w ops))"
proof (induction ops arbitrary: w)
  case Nil
  show ?case by (simp add: run_Nil)
next
  case (Cons op ops)
  from Cons.prems have "op \<noteq> RepoClear" and "RepoClear \<notin> set ops" by auto
  then have "next_id (repo w) \<le> next_id (repo (step w op))"
    and "next_id (repo (step w op)) \<le> next_id (repo (run (step w op) ops))"
    using Cons.IH by (simp_all add: step_next_id_mono)
  then show ?case by (simp add: run_Cons)
qed

lemma stored_task_allocated:
  assumes "consistent w" "TaskRepository_get_task w i = Some a"
  shows "a < length (heap w) \<and> task_id (heap w ! a) = i \<and> i < next_id (repo w)"
proof -
  from assms(2) have "(i, a) \<in> set (tasks (repo w))"
    by (simp add: TaskRepository_get_task_def map_of_SomeD)
  with assms(1) show ?thesis by (auto simp: consistent_def)
qed

lemma not_COMPLETE_iff: "s \<noteq> COMPLETE \<longleftrightarrow> s = INCOMPLETE"
  by (cases s) simp_all

lemma mark_complete_stored:
  assumes "TaskRepository_get_task w i = Some a"
  shows "TaskService_mark_complete w i =
     (if status (heap w ! a) = COMPLETE
      then (Inl (ValidationError ''Task is already complete''), w)
      else (Inr a, Task_mark_complete w a))"
  using assms validate_task_id_stored [OF assms]
  by (simp add: TaskService_mark_complete_def Task_is_complete_def)

lemma mark_incomplete_stored:
  assumes "TaskRepository_get_task w i = Some a"
  shows "TaskService_mark_incomplete w i =
     (if status (heap w ! a) \<noteq> COMPLETE
      then (Inl (ValidationError ''Task is already incomplete''), w)
      else (Inr a, Task_mark_incomplete w a))"
  using assms validate_task_id_stored [OF assms]
  by (simp add: TaskService_mark_incomplete_def Task_is_complete_def)

lemma update_task_rejected:
  assumes g: "TaskRepository_get_task w i = Some a"
    and f: "fst (TaskService_update_task w i nt nd) = Inl e"
  shows "(\<exists>t. nt = Some t \<and> TaskService_validate_title t = Inl e \<and>
            TaskService_update_task w i nt nd = (Inl e, w)) \<or>
         (\<exists>d. nt = None \<and> nd = Some d \<and> TaskService_validate_description d = Inl e \<and>
            TaskService_update_task w i nt nd = (Inl e, w)) \<or>
         (\<exists>t d. nt = Some t \<and> nd = Some d \<and>
            TaskService_validate_title t = Inr (title (heap w ! a)) \<and>
            TaskService_validate_description d = Inl e \<and>
            TaskService_update_task w i nt nd = (Inl e, w)) \<or>
         (\<exists>t vt d. nt = Some t \<and> nd = Some d \<and>
            TaskService_validate_title t = Inr vt \<and> vt \<noteq> title (heap w ! a) \<and>
            TaskService_validate_description d = Inl e \<and>
            TaskService_update_task w i nt nd = (Inl e, Task_update_title w a vt))"
  using f g validate_task_id_stored [OF g]
  by (auto simp: TaskService_update_task_def split: option.splits sum.splits if_splits)

lemma repo_add_task_next_id:
  "task_id (heap w ! task) < next_id (repo (snd (TaskRepository_add_task w task)))"
  by (simp add: TaskRepository_add_task_def)

lemma add_all_step:
  assumes "TaskService_validate_title t = Inr vt" "TaskService_validate_description d = Inr vd"
  shows "add_all w ((t, d, now) # calls) =
           Inr (next_id (repo w)) # add_all (snd (TaskService_add_task w t d now)) calls"
    and "next_id (repo (snd (TaskService_add_task w t d now))) = next_id (repo w) + 1"
  using add_task_valid [OF assms, of w now] by simp_all

lemma add_all_successful:
  assumes "\<forall>r\<in>set (add_all w calls). \<not> isl r"
  shows "add_all w calls =
           map Inr [next_id (repo w)..next_id (repo w) + int (length calls) - 1]"
  using assms
proof (induction calls arbitrary: w)
  case Nil
  show ?case by simp
next
  case (Cons c calls)
  obtain t d now where c: "c = (t, d, now)" by (cases c) auto
  show ?case
  proof (cases rule: add_task_cases [of w t d now])
    case (invalid e)
    then show ?thesis using Cons.prems c by simp
  next
    case (valid vt vd)
    let ?w1 = "snd (TaskService_add_task w t d now)"
    have step: "add_all w (c # calls) = Inr (next_id (repo w)) # add_all ?w1 calls"
      and n1: "next_id (repo ?w1) = next_id (repo w) + 1"
      using c add_task_valid [OF valid, of w now] by simp_all
    have "\<forall>r\<in>set (add_all ?w1 calls). \<not> isl r"
      using Cons.prems step by simp
    then have "add_all ?w1 calls =
        map Inr [next_id (repo ?w1)..next_id (repo ?w1) + int (length calls) - 1]"
      by (rule Cons.IH)
    then show ?thesis
      using step n1 upto_rec1 [of "next_id (repo w)" "next_id (repo w) + int (length calls)"]
      by simp
  qed
qed

lemma sorted_ids_of_consistent:
  assumes c: "consistent w"
  shows "sorted_wrt (<) (map (\<lambda>a. task_id (heap w ! a)) (TaskRepository_get_all_tasks w))"
proof -
  let ?f = "\<lambda>a. task_id (heap w ! a)"
  let ?al = "tasks (repo w)"
  have "map ?f (map snd ?al) = map fst ?al"
    using c by (auto simp: consistent_def)
  moreover have "distinct (map fst ?al)"
    using c by (simp add: consistent_def)
  ultimately have "distinct (map ?f (map snd ?al))"
    by (simp only:)
  then have "distinct (map snd ?al) \<and> inj_on ?f (set (map snd ?al))"
    by (simp only: distinct_map)
  then have "distinct (map ?f (sort_key ?f (map snd ?al)))"
    by (simp only: distinct_map distinct_sort set_sort simp_thms)
  moreover have "sorted (map ?f (sort_key ?f (map snd ?al)))"
    by (rule sorted_sort_key)
  ultimately show ?thesis
    by (simp only: TaskRepository_get_all_tasks_def strict_sorted_iff simp_thms)
qed

lemma listed_iff_stored:
  assumes c: "consistent w"
  shows "a \<in> set (TaskRepository_get_all_tasks w) \<longleftrightarrow> (\<exists>i. TaskRepository_get_task w i = Some a)"
proof -
  have d: "distinct (map fst (tasks (repo w)))" using c by (simp add: consistent_def)
  show ?thesis
    by (auto simp: TaskRepository_get_all_tasks_def TaskRepository_get_task_def
        map_of_eq_Some_iff [OF d] intro: rev_image_eqI)
qed

section \<open>The example runs\<close>

lemma next_id_fresh: "next_id (repo fresh) = 1"
  by (simp add: fresh_def TaskRepository_init_def)

lemma add_to_fresh: "TaskService_add_task fresh [84] [] 0 = (Inr 0, one_task)"
  by (simp add: add_task_valid [OF letters_valid(1) validate_description_empty]
      fresh_def one_task_def TaskRepository_init_def)

lemma run_fresh_add: "run fresh [Add [84] [] 0] = one_task"
  by (simp add: run_Cons run_Nil add_to_fresh)

lemma consistent_one_task: "consistent one_task"
  using consistent_run [OF consistent_fresh, of "[Add [84] [] 0]"] by (simp add: run_fresh_add)

lemma get_task_one_task: "TaskRepository_get_task one_task 1 = Some 0"
  by (simp add: TaskRepository_get_task_def one_task_def)

lemma run_one_task_delete:
  "run one_task [Delete 1] = one_task\<lparr>repo := \<lparr>tasks = [], next_id = 2\<rparr>\<rparr>"
  by (simp add: run_Cons run_Nil TaskService_delete_task_def TaskService_validate_task_id_def
      TaskRepository_task_exists_def TaskRepository_delete_task_def Let_def one_task_def)

lemma update_one_task_rejected:
  "TaskService_update_task one_task 1 (Some [78]) (Some (replicate 501 121)) =
     (Inl (ValidationError ''Description exceeds 500 characters''),
      Task_update_title one_task 0 [78])"
proof -
  have t: "title (heap one_task ! 0) = [84]" by (simp add: one_task_def)
  show ?thesis
    using validate_task_id_stored [OF get_task_one_task]
    by (simp add: TaskService_update_task_def get_task_one_task letters_valid(4) t
        long_description_rejected)
qed

lemma run_scenario: "run fresh scenario = after_scenario"
proof -
  have 1: "step fresh (Add [84] [] 0) = one_task"
    by (simp add: add_to_fresh)
  have 2: "step one_task (Add [66] [67] 1) =
      \<lparr>heap = heap one_task @
         [\<lparr>task_id = 2, title = [66], description = [67], status = INCOMPLETE, created_at = 1\<rparr>],
       repo = \<lparr>tasks = [(1, 0), (2, 1)], next_id = 3\<rparr>\<rparr>" (is "_ = ?w2")
    by (simp add: add_task_valid [OF letters_valid(2) letters_valid(5)] one_task_def)
  have 3: "step ?w2 (Delete 1) =
      \<lparr>heap = heap one_task @
         [\<lparr>task_id = 2, title = [66], description = [67], status = INCOMPLETE, created_at = 1\<rparr>],
       repo = \<lparr>tasks = [(2, 1)], next_id = 3\<rparr>\<rparr>" (is "_ = ?w3")
    by (simp add: TaskService_delete_task_def TaskService_validate_task_id_def
        TaskRepository_task_exists_def TaskRepository_delete_task_def Let_def)
  have 4: "step ?w3 (Add [70] [] 2) = after_scenario"
    by (simp add: add_task_valid [OF letters_valid(3) validate_description_empty]
        one_task_def after_scenario_def)
  show ?thesis
    by (simp only: scenario_def run_Cons run_Nil 1 2 3 4)
qed

lemma get_all_tasks_after_scenario: "TaskService_get_all_tasks after_scenario = [1, 2]"
  by (simp add: TaskService_get_all_tasks_def TaskRepository_get_all_tasks_def after_scenario_def)

section \<open>Atomicity of update\<close>

text \<open>
  C1 as stated does not hold. The store holds one task, added with title \<open>T\<close> (code point
  84). An update with the new title \<open>N\<close> (78) and a description of 501 characters raises
  \<open>ValidationError\<close> for the description, and the title of the stored task is \<open>N\<close>
  afterwards: the first field's mutation is committed.
\<close>

theorem update_not_atomic_counterexample:
  "run fresh [Add [84] [] 0] = one_task \<and>
   TaskRepository_get_task one_task 1 = Some 0 \<and>
   title (heap one_task ! 0) = [84] \<and>
   fst (TaskService_update_task one_task 1 (Some [78]) (Some (replicate 501 121))) =
     Inl (ValidationError ''Description exceeds 500 characters'') \<and>
   title (heap (snd (TaskService_update_task one_task 1 (Some [78]) (Some (replicate 501 121)))) ! 0)
     = [78]"
proof -
  have "title (heap one_task ! 0) = [84]"
    and "title (heap (Task_update_title one_task 0 [78]) ! 0) = [78]"
    by (simp_all add: one_task_def Task_update_title_def)
  then show ?thesis
    by (simp only: update_one_task_rejected run_fresh_add get_task_one_task fst_conv snd_conv
        simp_thms)
qed

text \<open>
  C1, amended. \<open>update_task\<close> validates and applies the fields one after the other, the
  title first. When it raises on a stored task, the error is a \<open>ValidationError\<close>, and
  the description, status, id and creation time of the task, every other object and the
  repository are what they were before the call. When the title was rejected, or no title
  was provided, nothing at all was mutated. When a title was provided and accepted, the
  description is what was rejected, and the title of the stored task is already the
  validated new title.
\<close>

theorem update_rejected_keeps_earlier_field:
  assumes "consistent w" "TaskRepository_get_task w i = Some a"
    and "TaskService_update_task w i nt nd = (Inl e, w')"
  shows "(\<exists>m. e = ValidationError m) \<and>
         repo w' = repo w \<and>
         description (heap w' ! a) = description (heap w ! a) \<and>
         status (heap w' ! a) = status (heap w ! a) \<and>
         task_id (heap w' ! a) = task_id (heap w ! a) \<and>
         created_at (heap w' ! a) = created_at (heap w ! a) \<and>
         (\<forall>b. b \<noteq> a \<longrightarrow> heap w' ! b = heap w ! b) \<and>
         (\<forall>t. nt = Some t \<and> TaskService_validate_title t = Inl e \<longrightarrow> w' = w) \<and>
         (nt = None \<longrightarrow> w' = w) \<and>
         (\<forall>t vt. nt = Some t \<and> TaskService_validate_title t = Inr vt \<longrightarrow>
            w' = Task_update_title w a vt \<and> title (heap w' ! a) = vt \<and>
            (\<exists>d. nd = Some d \<and> TaskService_validate_description d = Inl e))"
proof -
  have a: "a < length (heap w)"
    using stored_task_allocated [OF assms(1,2)] by simp
  have f: "fst (TaskService_update_task w i nt nd) = Inl e"
    using assms(3) by simp
  have same: "Task_update_title w a (title (heap w ! a)) = w"
    by (simp add: Task_update_title_def)
  have ids: "task_id (heap w' ! a) = task_id (heap w ! a) \<and>
      created_at (heap w' ! a) = created_at (heap w ! a)"
    using update_task_heap [of w i nt nd] a assms(3) by (simp add: same_ids_def)
  from update_task_rejected [OF assms(2) f] show ?thesis
  proof (elim disjE exE conjE)
    fix t
    assume "nt = Some t" "TaskService_validate_title t = Inl e"
      "TaskService_update_task w i nt nd = (Inl e, w)"
    then show ?thesis
      using assms(3) validate_title_error_kind [of t e] by auto
  next
    fix d
    assume "nt = None" "nd = Some d" "TaskService_validate_description d = Inl e"
      "TaskService_update_task w i nt nd = (Inl e, w)"
    then show ?thesis
      using assms(3) validate_description_error_kind [of d e] by auto
  next
    fix t d
    assume "nt = Some t" "nd = Some d" "TaskService_validate_title t = Inr (title (heap w ! a))"
      "TaskService_validate_description d = Inl e"
      "TaskService_update_task w i nt nd = (Inl e, w)"
    then show ?thesis
      using assms(3) validate_description_error_kind [of d e] same by auto
  next
    fix t vt d
    assume "nt = Some t" "nd = Some d" "TaskService_validate_title t = Inr vt"
      "vt \<noteq> title (heap w ! a)" "TaskService_validate_description d = Inl e"
      "TaskService_update_task w i nt nd = (Inl e, Task_update_title w a vt)"
    then show ?thesis
      using assms(3) validate_description_error_kind [of d e] a ids
      by (auto simp: Task_update_title_effect)
  qed
qed

theorem update_rejected_keeps_earlier_field_witness:
  "snd (TaskService_update_task one_task 1 (Some [78]) (Some (replicate 501 121))) =
     Task_update_title one_task 0 [78] \<and>
   title (heap (Task_update_title one_task 0 [78]) ! 0) = [78] \<and>
   description (heap (Task_update_title one_task 0 [78]) ! 0) = description (heap one_task ! 0) \<and>
   TaskService_update_task one_task 1 (Some [32]) (Some [67]) =
     (Inl (ValidationError ''Task title cannot be empty''), one_task)"
proof -
  have v: "TaskService_validate_title [32] = Inl (ValidationError ''Task title cannot be empty'')"
    by (simp add: TaskService_validate_title_def strip_def isspace_def)
  have u: "TaskService_update_task one_task 1 (Some [32]) (Some [67]) =
      (Inl (ValidationError ''Task title cannot be empty''), one_task)"
    using validate_task_id_stored [OF get_task_one_task]
    by (simp add: TaskService_update_task_def get_task_one_task v)
  show ?thesis
    using update_rejected_keeps_earlier_field
      [OF consistent_one_task get_task_one_task update_one_task_rejected]
      update_rejected_keeps_earlier_field [OF consistent_one_task get_task_one_task u] u
    by (simp add: update_one_task_rejected letters_valid(4) v)
qed

section \<open>Ids are never issued twice\<close>

text \<open>
  C2. As long as the repository is not reset, the counter never decreases, it stays
  strictly above the id of every task ever inserted, whatever is done afterwards (deleting
  that task included), and so the id a later \<open>add\<close> returns is strictly greater than the
  id any earlier \<open>add\<close> returned: no id is issued twice.
\<close>

theorem issued_ids_stay_below_next_id:
  assumes "RepoClear \<notin> set ops"
  shows "next_id (repo w) \<le> next_id (repo (run w ops)) \<and>
         task_id (heap w ! task) < next_id (repo (run (snd (TaskRepository_add_task w task)) ops)) \<and>
         (TaskService_add_task w t d now = (Inr a, w1) \<longrightarrow>
            task_id (heap w1 ! a) = next_id (repo w) \<and>
            task_id (heap w1 ! a) < next_id (repo (run w1 ops)) \<and>
            (TaskService_add_task (run w1 ops) t' d' now' = (Inr b, w2) \<longrightarrow>
               task_id (heap w1 ! a) < task_id (heap w2 ! b)))"
proof (intro conjI impI)
  show "next_id (repo w) \<le> next_id (repo (run w ops))"
    using assms by (rule run_next_id_mono)
  show "task_id (heap w ! task) < next_id (repo (run (snd (TaskRepository_add_task w task)) ops))"
    using repo_add_task_next_id [of w task]
      run_next_id_mono [OF assms, of "snd (TaskRepository_add_task w task)"]
    by simp
next
  assume add: "TaskService_add_task w t d now = (Inr a, w1)"
  have first: "task_id (heap w1 ! a) = next_id (repo w) \<and> next_id (repo w1) = next_id (repo w) + 1"
  proof (cases rule: add_task_cases [of w t d now])
    case (invalid e)
    then show ?thesis using add by simp
  next
    case (valid vt vd)
    then show ?thesis using add add_task_valid [OF valid, of w now] by auto
  qed
  then show "task_id (heap w1 ! a) = next_id (repo w)" by simp
  have mono: "next_id (repo w1) \<le> next_id (repo (run w1 ops))"
    using assms by (rule run_next_id_mono)
  then show below: "task_id (heap w1 ! a) < next_id (repo (run w1 ops))"
    using first by simp
  assume add2: "TaskService_add_task (run w1 ops) t' d' now' = (Inr b, w2)"
  have "task_id (heap w2 ! b) = next_id (repo (run w1 ops))"
  proof (cases rule: add_task_cases [of "run w1 ops" t' d' now'])
    case (invalid e)
    then show ?thesis using add2 by simp
  next
    case (valid vt vd)
    then show ?thesis using add2 add_task_valid [OF valid, of "run w1 ops" now'] by auto
  qed
  then show "task_id (heap w1 ! a) < task_id (heap w2 ! b)" using below by simp
qed

theorem issued_ids_stay_below_next_id_witness:
  "task_id (heap one_task ! 0) = 1 \<and>
   fst (TaskService_add_task (run one_task [Delete 1]) [66] [] 1) = Inr 1 \<and>
   1 < task_id (heap (snd (TaskService_add_task (run one_task [Delete 1]) [66] [] 1)) ! 1)"
proof -
  let ?w = "run one_task [Delete 1]"
  let ?w2 = "snd (TaskService_add_task ?w [66] [] 1)"
  have "length (heap ?w) = 1"
    unfolding run_one_task_delete by (simp add: one_task_def)
  then have f: "fst (TaskService_add_task ?w [66] [] 1) = Inr 1"
    using add_task_valid [OF letters_valid(2) validate_description_empty, of ?w 1] by simp
  then have add2: "TaskService_add_task ?w [66] [] 1 = (Inr 1, ?w2)"
    by (simp add: prod_eq_iff)
  have "RepoClear \<notin> set [Delete 1]" by simp
  from issued_ids_stay_below_next_id [OF this, where w = fresh and task = 0 and t = "[84]"
      and d = "[]" and now = 0 and a = 0 and ?w1.0 = one_task and t' = "[66]" and d' = "[]"
      and now' = 1 and b = 1 and ?w2.0 = ?w2]
  have "task_id (heap one_task ! 0) = 1 \<and> task_id (heap one_task ! 0) < task_id (heap ?w2 ! 1)"
    using add2 by (simp add: add_to_fresh next_id_fresh)
  then show ?thesis using f by simp
qed

section \<open>Ids of consecutive adds\<close>

text \<open>
  C3. When every call of a sequence of \<open>add\<close> calls on a fresh store succeeds, the ids of
  the returned tasks are 1, 2, 3, ... in this order.
\<close>

theorem add_returns_ids_from_one:
  assumes "\<forall>r\<in>set (add_all fresh calls). \<not> isl r"
  shows "add_all fresh calls = map Inr [1..int (length calls)]"
  using add_all_successful [OF assms] by (simp add: fresh_def TaskRepository_init_def)

theorem add_returns_ids_from_one_witness:
  "add_all fresh [([84], [], 0), ([66], [67], 1), ([70], [], 2)] = [Inr 1, Inr 2, Inr 3]"
proof -
  let ?calls = "[([84], [], 0), ([66], [67], 1), ([70], [], 2)]"
  have "add_all fresh ?calls = [Inr 1, Inr 2, Inr 3]"
    by (simp add: add_all_step [OF letters_valid(1) validate_description_empty]
        add_all_step [OF letters_valid(2) letters_valid(5)]
        add_all_step [OF letters_valid(3) validate_description_empty]
        next_id_fresh del: add_all.simps(2))
  then have "\<forall>r\<in>set (add_all fresh ?calls). \<not> isl r" by simp
  from add_returns_ids_from_one [OF this] show ?thesis
    by (simp add: upto_rec1)
qed

section \<open>Status transitions\<close>

text \<open>
  C4. For a stored task whose status is \<open>COMPLETE\<close>, \<open>mark_complete\<close> raises
  \<open>ValidationError\<close> and changes nothing, while \<open>mark_incomplete\<close> returns the task, with
  its status now \<open>INCOMPLETE\<close>, and a second \<open>mark_incomplete\<close> right after it raises
  \<open>ValidationError\<close>. Symmetrically for a stored task whose status is \<open>INCOMPLETE\<close>.
\<close>

theorem no_op_transitions_rejected:
  assumes "consistent w" "TaskRepository_get_task w i = Some a"
  shows
    "(status (heap w ! a) = COMPLETE \<longrightarrow>
        TaskService_mark_complete w i = (Inl (ValidationError ''Task is already complete''), w) \<and>
        TaskService_mark_incomplete w i = (Inr a, Task_mark_incomplete w a) \<and>
        status (heap (Task_mark_incomplete w a) ! a) = INCOMPLETE \<and>
        TaskService_mark_incomplete (Task_mark_incomplete w a) i =
          (Inl (ValidationError ''Task is already incomplete''), Task_mark_incomplete w a)) \<and>
     (status (heap w ! a) = INCOMPLETE \<longrightarrow>
        TaskService_mark_incomplete w i = (Inl (ValidationError ''Task is already incomplete''), w) \<and>
        TaskService_mark_complete w i = (Inr a, Task_mark_complete w a) \<and>
        status (heap (Task_mark_complete w a) ! a) = COMPLETE \<and>
        TaskService_mark_complete (Task_mark_complete w a) i =
          (Inl (ValidationError ''Task is already complete''), Task_mark_complete w a))"
proof -
  have a: "a < length (heap w)"
    using stored_task_allocated [OF assms] by simp
  have c: "TaskRepository_get_task (Task_mark_complete w a) i = Some a"
    and ic: "TaskRepository_get_task (Task_mark_incomplete w a) i = Some a"
    using assms(2) by (simp_all add: Task_mark_complete_effect Task_mark_incomplete_effect)
  show ?thesis
    using a mark_complete_stored [OF assms(2)] mark_incomplete_stored [OF assms(2)]
      mark_complete_stored [OF c] mark_incomplete_stored [OF ic]
    by (simp add: Task_mark_complete_effect Task_mark_incomplete_effect)
qed

theorem no_op_transitions_rejected_witness:
  "TaskService_mark_incomplete one_task 1 =
     (Inl (ValidationError ''Task is already incomplete''), one_task) \<and>
   TaskService_mark_complete one_task 1 = (Inr 0, Task_mark_complete one_task 0) \<and>
   TaskService_mark_complete (Task_mark_complete one_task 0) 1 =
     (Inl (ValidationError ''Task is already complete''), Task_mark_complete one_task 0)"
proof -
  have "status (heap one_task ! 0) = INCOMPLETE" by (simp add: one_task_def)
  then show ?thesis
    using no_op_transitions_rejected [OF consistent_one_task get_task_one_task] by simp
qed

section \<open>Statistics\<close>

text \<open>
  C5. In every state, the triple of \<open>get_statistics\<close> satisfies
  completed + remaining = total, total is the length of the listing and completed is the
  number of listed tasks whose status is \<open>COMPLETE\<close>.
\<close>

theorem statistics_agree_with_listing:
  assumes "TaskService_get_statistics w = (total_tasks, completed_tasks, remaining_tasks)"
  shows "completed_tasks + remaining_tasks = total_tasks \<and>
         total_tasks = int (length (TaskService_get_all_tasks w)) \<and>
         completed_tasks =
           int (length (filter (\<lambda>a. status (heap w ! a) = COMPLETE) (TaskService_get_all_tasks w))) \<and>
         0 \<le> completed_tasks \<and> 0 \<le> remaining_tasks"
proof -
  let ?l = "TaskService_get_all_tasks w"
  let ?c = "filter (Task_is_complete w) ?l"
  have t: "total_tasks = int (length ?l)" and co: "completed_tasks = int (length ?c)"
    and r: "remaining_tasks = total_tasks - completed_tasks"
    using assms by (simp_all add: TaskService_get_statistics_def Let_def sum_list_triv)
  have f: "?c = filter (\<lambda>a. status (heap w ! a) = COMPLETE) ?l"
    by (rule filter_cong) (simp_all add: Task_is_complete_def)
  have "length ?c \<le> length ?l" by (rule length_filter_le)
  then show ?thesis using t co r f by simp
qed

theorem statistics_agree_with_listing_witness:
  "TaskService_get_statistics (snd (TaskService_mark_complete after_scenario 3)) = (2, 1, 1)"
proof -
  let ?w = "snd (TaskService_mark_complete after_scenario 3)"
  have w: "?w = after_scenario\<lparr>heap := (heap after_scenario)
      [2 := \<lparr>task_id = 3, title = [70], description = [], status = COMPLETE, created_at = 2\<rparr>]\<rparr>"
    by (simp add: TaskService_mark_complete_def TaskService_validate_task_id_def
        TaskRepository_task_exists_def TaskRepository_get_task_def Task_is_complete_def
        Task_mark_complete_def after_scenario_def)
  have l: "TaskService_get_all_tasks ?w = [1, 2]"
    unfolding w
    by (simp add: TaskService_get_all_tasks_def TaskRepository_get_all_tasks_def
        after_scenario_def)
  have s: "filter (\<lambda>a. status (heap ?w ! a) = COMPLETE) [1, 2] = [2]"
    unfolding w by (simp add: after_scenario_def)
  obtain t c r where st: "TaskService_get_statistics ?w = (t, c, r)"
    by (cases "TaskService_get_statistics ?w") auto
  from statistics_agree_with_listing [OF st] show ?thesis
    unfolding st by (simp only: l s) simp
qed

section \<open>Update without change\<close>

text \<open>
  C6. For a stored task, \<open>update_task\<close> with a title that validates to the current title
  and a description that validates to the current description returns the task with
  \<open>was_changed = False\<close> and leaves the whole world as it was: the id, creation time,
  title, description and status of the task, and everything else.
\<close>

theorem update_with_current_values:
  assumes "TaskRepository_get_task w i = Some a"
    and "TaskService_validate_title t = Inr (title (heap w ! a))"
    and "TaskService_validate_description d = Inr (description (heap w ! a))"
  shows "TaskService_update_task w i (Some t) (Some d) = (Inr (a, False), w)"
  using assms validate_task_id_stored [OF assms(1)]
  by (simp add: TaskService_update_task_def)

theorem update_with_current_values_witness:
  "TaskService_update_task one_task 1 (Some [32, 84, 32]) (Some []) = (Inr (0, False), one_task)"
proof -
  have "\<not> isspace 84" and "isspace 32" by (simp_all add: isspace_def)
  then have "strip ([32] @ [84] @ [32]) = [84]"
    by (intro strip_padded) simp_all
  then have t: "TaskService_validate_title [32, 84, 32] = Inr (title (heap one_task ! 0))"
    by (simp add: TaskService_validate_title_def one_task_def)
  have d: "TaskService_validate_description [] = Inr (description (heap one_task ! 0))"
    by (simp add: validate_description_empty one_task_def)
  show ?thesis
    using get_task_one_task t d by (rule update_with_current_values)
qed

section \<open>Order of the listing\<close>

text \<open>
  C7. In every state reached from the fresh store by any operations, \<open>get_all_tasks\<close>
  returns exactly the stored tasks, each once, in strictly ascending order of their ids;
  for an empty store it returns the empty list.
\<close>

theorem get_all_tasks_ascending:
  "sorted_wrt (<) (map (\<lambda>a. task_id (heap (run fresh ops) ! a))
      (TaskService_get_all_tasks (run fresh ops))) \<and>
   set (TaskService_get_all_tasks (run fresh ops)) =
     {a. \<exists>i. TaskRepository_get_task (run fresh ops) i = Some a} \<and>
   length (TaskService_get_all_tasks (run fresh ops)) = length (tasks (repo (run fresh ops))) \<and>
   (tasks (repo (run fresh ops)) = [] \<longrightarrow> TaskService_get_all_tasks (run fresh ops) = [])"
proof -
  have c: "consistent (run fresh ops)"
    using consistent_fresh by (rule consistent_run)
  have "set (TaskRepository_get_all_tasks (run fresh ops)) =
     {a. \<exists>i. TaskRepository_get_task (run fresh ops) i = Some a}"
    using listed_iff_stored [OF c] by blast
  moreover have "length (TaskRepository_get_all_tasks (run fresh ops)) =
      length (tasks (repo (run fresh ops)))"
    by (simp add: TaskRepository_get_all_tasks_def)
  moreover have "tasks (repo (run fresh ops)) = [] \<longrightarrow>
      TaskRepository_get_all_tasks (run fresh ops) = []"
    by (simp add: TaskRepository_get_all_tasks_def)
  ultimately show ?thesis
    using sorted_ids_of_consistent [OF c] by (simp only: TaskService_get_all_tasks_def simp_thms)
qed

theorem get_all_tasks_ascending_witness:
  "sorted_wrt (<) [2, 3 :: int] \<and>
   map (\<lambda>a. task_id (heap (run fresh scenario) ! a)) (TaskService_get_all_tasks (run fresh scenario))
     = [2, 3] \<and>
   TaskService_get_all_tasks (run fresh []) = []"
proof -
  have ids: "map (\<lambda>a. task_id (heap after_scenario ! a)) [1, 2] = [2, 3]"
    by (simp add: after_scenario_def)
  have empty: "tasks (repo (run fresh [])) = []"
    by (simp add: run_Nil fresh_def TaskRepository_init_def)
  have "TaskService_get_all_tasks (run fresh []) = []"
    using get_all_tasks_ascending [of "[]"] empty by blast
  moreover have "sorted_wrt (<) (map (\<lambda>a. task_id (heap (run fresh scenario) ! a))
      (TaskService_get_all_tasks (run fresh scenario)))"
    using get_all_tasks_ascending [of scenario] by blast
  ultimately show ?thesis
    by (simp only: run_scenario get_all_tasks_after_scenario ids simp_thms)
qed

section \<open>Validation of titles\<close>

text \<open>
  C8. \<open>validate_title\<close> raises exactly when the trimmed input is empty (the input is
  empty or consists of whitespace only) or the trimmed input is longer than 200 characters;
  what it raises is a \<open>ValidationError\<close>; otherwise it returns the trimmed text. In
  particular a title whose trimmed length is exactly 200 is accepted.
\<close>

theorem validate_title_raises_exactly:
  "(isl (TaskService_validate_title t) \<longleftrightarrow> strip t = [] \<or> 200 < length (strip t)) \<and>
   (isl (TaskService_validate_title t) \<longrightarrow>
      (\<exists>m. TaskService_validate_title t = Inl (ValidationError m))) \<and>
   (\<not> isl (TaskService_validate_title t) \<longrightarrow> TaskService_validate_title t = Inr (strip t)) \<and>
   (strip t = [] \<longleftrightarrow> (\<forall>c\<in>set t. isspace c)) \<and>
   (length (strip t) = 200 \<longrightarrow> TaskService_validate_title t = Inr (strip t))"
proof -
  have e: "t = [] \<Longrightarrow> strip t = []" by (simp add: strip_def)
  show ?thesis
    using e strip_Nil_iff [of t]
    by (auto simp: TaskService_validate_title_def Let_def)
qed

theorem validate_title_raises_exactly_witness:
  "TaskService_validate_title (32 # replicate 200 120 @ [32]) = Inr (replicate 200 120) \<and>
   TaskService_validate_title [32, 9] = Inl (ValidationError ''Task title cannot be empty'')"
proof -
  have sp: "isspace 32" and x: "\<not> isspace 120" and tab: "isspace 9"
    by (simp_all add: isspace_def)
  have h: "hd (replicate 200 120) = (120::nat)" by (rule hd_replicate) simp
  have l: "last (replicate 200 120) = (120::nat)" by (rule last_replicate) simp
  have ne: "replicate 200 (120::nat) \<noteq> []" by (simp only: replicate_empty)
  have "strip ([32] @ replicate 200 120 @ [32]) = replicate 200 120"
    by (rule strip_padded) (simp_all only: h l x sp ne list.set ball_simps not_False_eq_True)
  then have a: "strip (32 # replicate 200 120 @ [32]) = replicate 200 120"
    by (simp only: append_Cons append_Nil)
  have len: "length (strip (32 # replicate 200 120 @ [32])) = 200"
    by (simp only: a length_replicate)
  have b: "TaskService_validate_title [32, 9] = Inl (ValidationError ''Task title cannot be empty'')"
    by (simp add: TaskService_validate_title_def strip_def sp tab)
  show ?thesis
    using validate_title_raises_exactly [of "32 # replicate 200 120 @ [32]"] len b
    by (simp only: a simp_thms)
qed

section \<open>Status changes reach the store\<close>

text \<open>
  C9. The service changes the status on the object the repository's dict refers to and
  never writes the task back: the repository is left as it was. For a stored task whose
  status is \<open>INCOMPLETE\<close>, \<open>mark_complete\<close> succeeds and returns the task, and in the
  world it leaves, \<open>get_task\<close> with the same id returns that very object, whose status is
  now \<open>COMPLETE\<close>. Symmetrically, for a stored task whose status is \<open>COMPLETE\<close>,
  \<open>mark_incomplete\<close> succeeds and \<open>get_task\<close> afterwards shows the status
  \<open>INCOMPLETE\<close>.
\<close>

theorem status_change_visible_through_get:
  assumes "consistent w" "TaskRepository_get_task w i = Some a"
  shows
    "(status (heap w ! a) = INCOMPLETE \<longrightarrow>
        TaskService_mark_complete w i = (Inr a, Task_mark_complete w a) \<and>
        repo (snd (TaskService_mark_complete w i)) = repo w \<and>
        TaskService_get_task (snd (TaskService_mark_complete w i)) i = Inr (Some a) \<and>
        status (heap (snd (TaskService_mark_complete w i)) ! a) = COMPLETE) \<and>
     (status (heap w ! a) = COMPLETE \<longrightarrow>
        TaskService_mark_incomplete w i = (Inr a, Task_mark_incomplete w a) \<and>
        repo (snd (TaskService_mark_incomplete w i)) = repo w \<and>
        TaskService_get_task (snd (TaskService_mark_incomplete w i)) i = Inr (Some a) \<and>
        status (heap (snd (TaskService_mark_incomplete w i)) ! a) = INCOMPLETE)"
proof (intro conjI impI)
  have a: "a < length (heap w)"
    using stored_task_allocated [OF assms] by simp
  {
    assume s: "status (heap w ! a) = INCOMPLETE"
    let ?w' = "Task_mark_complete w a"
    show m: "TaskService_mark_complete w i = (Inr a, ?w')"
      using mark_complete_stored [OF assms(2)] s by simp
    have g: "TaskRepository_get_task ?w' i = Some a"
      using assms(2) by (simp add: Task_mark_complete_effect)
    show "repo (snd (TaskService_mark_complete w i)) = repo w"
      by (simp add: m Task_mark_complete_effect)
    show "TaskService_get_task (snd (TaskService_mark_complete w i)) i = Inr (Some a)"
      using g validate_task_id_stored [OF g] by (simp add: m TaskService_get_task_def)
    show "status (heap (snd (TaskService_mark_complete w i)) ! a) = COMPLETE"
      using a by (simp add: m Task_mark_complete_effect)
  }
  {
    assume s: "status (heap w ! a) = COMPLETE"
    let ?w' = "Task_mark_incomplete w a"
    show m: "TaskService_mark_incomplete w i = (Inr a, ?w')"
      using mark_incomplete_stored [OF assms(2)] s by simp
    have g: "TaskRepository_get_task ?w' i = Some a"
      using assms(2) by (simp add: Task_mark_incomplete_effect)
    show "repo (snd (TaskService_mark_incomplete w i)) = repo w"
      by (simp add: m Task_mark_incomplete_effect)
    show "TaskService_get_task (snd (TaskService_mark_incomplete w i)) i = Inr (Some a)"
      using g validate_task_id_stored [OF g] by (simp add: m TaskService_get_task_def)
    show "status (heap (snd (TaskService_mark_incomplete w i)) ! a) = INCOMPLETE"
      using a by (simp add: m Task_mark_incomplete_effect)
  }
qed

lemma one_task_completed:
  "consistent (Task_mark_complete one_task 0)"
  "TaskRepository_get_task (Task_mark_complete one_task 0) 1 = Some 0"
  "status (heap (Task_mark_complete one_task 0) ! 0) = COMPLETE"
proof -
  have "step one_task (MarkComplete 1) = Task_mark_complete one_task 0"
    using mark_complete_stored [OF get_task_one_task] by (simp add: one_task_def)
  then show "consistent (Task_mark_complete one_task 0)"
    using consistent_step [OF consistent_one_task, of "MarkComplete 1"] by simp
  show "TaskRepository_get_task (Task_mark_complete one_task 0) 1 = Some 0"
    by (simp add: Task_mark_complete_effect get_task_one_task)
  show "status (heap (Task_mark_complete one_task 0) ! 0) = COMPLETE"
    by (simp add: Task_mark_complete_effect one_task_def)
qed

theorem status_change_visible_through_get_witness:
  "status (heap one_task ! 0) = INCOMPLETE \<and>
   TaskService_mark_complete one_task 1 = (Inr 0, Task_mark_complete one_task 0) \<and>
   TaskService_get_task (snd (TaskService_mark_complete one_task 1)) 1 = Inr (Some 0) \<and>
   status (heap (snd (TaskService_mark_complete one_task 1)) ! 0) = COMPLETE \<and>
   TaskService_mark_incomplete (Task_mark_complete one_task 0) 1 =
     (Inr 0, Task_mark_incomplete (Task_mark_complete one_task 0) 0) \<and>
   TaskService_get_task (snd (TaskService_mark_incomplete (Task_mark_complete one_task 0) 1)) 1 =
     Inr (Some 0) \<and>
   status (heap (snd (TaskService_mark_incomplete (Task_mark_complete one_task 0) 1)) ! 0) =
     INCOMPLETE"
proof -
  have s: "status (heap one_task ! 0) = INCOMPLETE" by (simp add: one_task_def)
  from status_change_visible_through_get [OF consistent_one_task get_task_one_task] s
  have c: "TaskService_mark_complete one_task 1 = (Inr 0, Task_mark_complete one_task 0) \<and>
      TaskService_get_task (snd (TaskService_mark_complete one_task 1)) 1 = Inr (Some 0) \<and>
      status (heap (snd (TaskService_mark_complete one_task 1)) ! 0) = COMPLETE"
    by blast
  from status_change_visible_through_get [OF one_task_completed(1) one_task_completed(2)]
    one_task_completed(3)
  have "TaskService_mark_incomplete (Task_mark_complete one_task 0) 1 =
        (Inr 0, Task_mark_incomplete (Task_mark_complete one_task 0) 0) \<and>
      TaskService_get_task (snd (TaskService_mark_incomplete (Task_mark_complete one_task 0) 1)) 1 =
        Inr (Some 0) \<and>
      status (heap (snd (TaskService_mark_incomplete (Task_mark_complete one_task 0) 1)) ! 0) =
        INCOMPLETE"
    by blast
  then show ?thesis using s c by blast
qed

section \<open>Identity fields\<close>

text \<open>
  C10. Whatever operations are performed (those of the service, and also inserting, deleting
  and resetting at the repository), every task object that exists keeps existing and keeps
  the id and the creation time it was constructed with: no operation writes to either field.
  Every stored task is such an object (\<open>stored_task_allocated\<close>).
\<close>

theorem id_and_created_at_never_modified:
  assumes "a < length (heap w)"
  shows "a < length (heap (run w ops)) \<and>
         task_id (heap (run w ops) ! a) = task_id (heap w ! a) \<and>
         created_at (heap (run w ops) ! a) = created_at (heap w ! a)"
  using assms run_heap [of w ops] by (simp add: same_ids_def)

theorem id_and_created_at_never_modified_witness:
  "task_id (heap (run one_task [Update 1 (Some [78]) None, MarkComplete 1, Delete 1]) ! 0) = 1 \<and>
   created_at (heap (run one_task [Update 1 (Some [78]) None, MarkComplete 1, Delete 1]) ! 0) = 0"
  using id_and_created_at_never_modified
    [of 0 one_task "[Update 1 (Some [78]) None, MarkComplete 1, Delete 1]"]
  by (simp add: one_task_def)

end
